theory Spec2Isabelle
  imports Complex_Main "HOL-Library.Multiset"
begin

section \<open>The store: the two tables of \<^verbatim>\<open>BankSystem.create_tables\<close>\<close>

text \<open>
  \<^verbatim>\<open>src/app.py\<close> keeps its state in two SQLite tables. A table is modelled as the list of
  its rows in insertion order. The columns \<^verbatim>\<open>account_id\<close> and \<^verbatim>\<open>transaction_id\<close>
  (autoincrement keys) are left out: no statement of the program reads them.

  Amounts are Python floats in the source. They are modelled as exact real numbers, so
  rounding, infinities and NaN are outside the model. \<^verbatim>\<open>CURRENT_TIMESTAMP\<close> is the clock
  of the store; every operation that inserts a row takes the clock reading \<open>now\<close> as an
  extra argument. A timestamp is modelled as the number of seconds the clock shows; the
  store keeps its text form, whose order is the order of the clock readings. A nullable
  \<^verbatim>\<open>TEXT\<close> column is a \<open>string option\<close>, \<open>None\<close> being NULL.
\<close>

record account =
  account_number :: string
  account_holder :: string
  balance :: real
  created_at :: nat

record transaction =
  from_account :: "string option"
  to_account :: "string option"
  transaction_type :: string
  amount :: real
  description :: "string option"
  timestamp :: nat

record bank =
  accounts :: "account list"
  transactions :: "transaction list"

definition empty_bank :: bank where
  "empty_bank = \<lparr>accounts = [], transactions = []\<rparr>"

text \<open>
  \<^verbatim>\<open>UPDATE accounts SET balance = <expr> WHERE account_number = ?\<close>: every row whose
  key matches gets its balance replaced by \<open>f\<close> of the old balance.
\<close>

definition update_balance :: "string \<Rightarrow> (real \<Rightarrow> real) \<Rightarrow> account list \<Rightarrow> account list" where
  "update_balance number f rows =
     map (\<lambda>r. if account_number r = number then r\<lparr>balance := f (balance r)\<rparr> else r) rows"

text \<open>
  The column \<^verbatim>\<open>account_number\<close> is declared \<^verbatim>\<open>UNIQUE NOT NULL\<close>: the store refuses
  an insert that would break this, so every reachable table satisfies \<open>unique_numbers\<close>.
\<close>

definition unique_numbers :: "bank \<Rightarrow> bool" where
  "unique_numbers db = distinct (map account_number (accounts db))"

section \<open>The engine: the methods of \<^verbatim>\<open>BankSystem\<close>\<close>

text \<open>
  Each mutating method returns the Python result (a \<open>bool\<close>) and the store after the call.
  A path that returns \<^verbatim>\<open>False\<close> never commits, so the store is the one before the call.
  The \<^verbatim>\<open>description\<close> argument is a Python string or \<^verbatim>\<open>None\<close> (the transfer endpoint
  passes an optional field on as it is); it is stored in the nullable column unchanged.
\<close>

definition create_account :: "bank \<Rightarrow> string \<Rightarrow> string \<Rightarrow> real \<Rightarrow> nat \<Rightarrow> bool \<times> bank" where
  "create_account db number holder initial_balance now =
     (if number \<in> set (map account_number (accounts db))
      then (False, db) \<comment> \<open>\<^verbatim>\<open>sqlite3.IntegrityError\<close>: the key exists\<close>
      else (True, db\<lparr>accounts := accounts db @
              [\<lparr>account_number = number, account_holder = holder,
                balance = initial_balance, created_at = now\<rparr>]\<rparr>))"

definition get_account :: "bank \<Rightarrow> string \<Rightarrow> account option" where
  "get_account db number = find (\<lambda>r. account_number r = number) (accounts db)"

definition get_all_accounts :: "bank \<Rightarrow> account list" where
  "get_all_accounts db = accounts db"

definition deposit :: "bank \<Rightarrow> string \<Rightarrow> real \<Rightarrow> string option \<Rightarrow> nat \<Rightarrow> bool \<times> bank" where
  "deposit db number amt descr now =
     (case find (\<lambda>r. account_number r = number) (accounts db) of
        None \<Rightarrow> (False, db)
      | Some result \<Rightarrow>
          (let current_balance = balance result;
               new_balance = current_balance + amt
           in (True,
               db\<lparr>accounts := update_balance number (\<lambda>_. new_balance) (accounts db),
                  transactions := transactions db @
                    [\<lparr>from_account = None, to_account = Some number,
                      transaction_type = ''DEPOSIT'', amount = amt,
                      description = descr, timestamp = now\<rparr>]\<rparr>)))"

definition withdraw :: "bank \<Rightarrow> string \<Rightarrow> real \<Rightarrow> string option \<Rightarrow> nat \<Rightarrow> bool \<times> bank" where
  "withdraw db number amt descr now =
     (case find (\<lambda>r. account_number r = number) (accounts db) of
        None \<Rightarrow> (False, db)
      | Some result \<Rightarrow>
          (let current_balance = balance result
           in if current_balance < amt then (False, db)
              else
                (let new_balance = current_balance - amt
                 in (True,
                     db\<lparr>accounts := update_balance number (\<lambda>_. new_balance) (accounts db),
                        transactions := transactions db @
                          [\<lparr>from_account = Some number, to_account = None,
                            transaction_type = ''WITHDRAWAL'', amount = amt,
                            description = descr, timestamp = now\<rparr>]\<rparr>))))"

text \<open>
  \<^verbatim>\<open>transfer\<close> selects the rows whose key is one of the two arguments and gives up unless
  there are exactly two. The dictionary comprehension keeps the last balance per key; a
  missing key in \<^verbatim>\<open>account_balances[from_account]\<close> raises \<^verbatim>\<open>KeyError\<close>, which the
  \<^verbatim>\<open>except Exception\<close> clause turns into \<^verbatim>\<open>False\<close> with nothing committed.
\<close>

definition transfer :: "bank \<Rightarrow> string \<Rightarrow> string \<Rightarrow> real \<Rightarrow> string option \<Rightarrow> nat \<Rightarrow> bool \<times> bank" where
  "transfer db from_acct to_acct amt descr now =
     (let accts = filter (\<lambda>r. account_number r = from_acct \<or> account_number r = to_acct)
                    (accounts db)
      in if length accts \<noteq> 2 then (False, db)
         else
           (case map_of (rev (map (\<lambda>acc. (account_number acc, balance acc)) accts)) from_acct of
              None \<Rightarrow> (False, db)
            | Some from_balance \<Rightarrow>
                if from_balance < amt then (False, db)
                else (True,
                      db\<lparr>accounts :=
                           update_balance to_acct (\<lambda>b. b + amt)
                             (update_balance from_acct (\<lambda>b. b - amt) (accounts db)),
                         transactions := transactions db @
                           [\<lparr>from_account = Some from_acct, to_account = Some to_acct,
                             transaction_type = ''TRANSFER'', amount = amt,
                             description = descr, timestamp = now\<rparr>]\<rparr>)))"

section \<open>The query \<^verbatim>\<open>BankSystem.get_transaction_history\<close>\<close>

text \<open>
  The \<^verbatim>\<open>WHERE\<close> clause compares two nullable columns with the argument; a NULL column
  never matches. \<^verbatim>\<open>ORDER BY timestamp DESC\<close> is modelled by a stable sort on the negated
  timestamp (SQL leaves the order of rows with equal timestamps open). \<^verbatim>\<open>LIMIT n\<close>
  keeps the first \<open>n\<close> rows, and all of them when \<open>n\<close> is negative, as SQLite defines it.
  The limit is a Python \<^verbatim>\<open>int\<close>; binding one that does not fit a signed 64-bit integer
  raises \<^verbatim>\<open>OverflowError\<close>, which the method does not catch.
\<close>

datatype py_error = OverflowError

definition involves :: "string \<Rightarrow> transaction \<Rightarrow> bool" where
  "involves number t = (from_account t = Some number \<or> to_account t = Some number)"

definition order_by_timestamp_desc :: "transaction list \<Rightarrow> transaction list" where
  "order_by_timestamp_desc rows = sort_key (\<lambda>t. - int (timestamp t)) rows"

definition sql_limit :: "int \<Rightarrow> 'a list \<Rightarrow> 'a list" where
  "sql_limit n rows = (if n < 0 then rows else take (nat n) rows)"

definition fits_int64 :: "int \<Rightarrow> bool" where
  "fits_int64 n = (- (2 ^ 63) \<le> n \<and> n < 2 ^ 63)"

definition get_transaction_history :: "bank \<Rightarrow> string \<Rightarrow> int \<Rightarrow> py_error + transaction list" where
  "get_transaction_history db number limit =
     (if \<not> fits_int64 limit then Inl OverflowError
      else Inr (sql_limit limit
                 (order_by_timestamp_desc (filter (involves number) (transactions db)))))"

section \<open>The HTTP layer: the endpoints that call the engine\<close>








section \<open>Sequences of operations, and the quantities the invariants speak about\<close>

text \<open>
  A call of one of the four mutating engine methods, with its arguments; a sequence of
  calls is run from left to right, each call paired with the clock reading it sees.
\<close>

datatype operation =
    CreateAccount string string real
  | Deposit string real "string option"
  | Withdraw string real "string option"
  | Transfer string string real "string option"

fun execute :: "bank \<Rightarrow> operation \<Rightarrow> nat \<Rightarrow> bool \<times> bank" where
  "execute db (CreateAccount number holder initial_balance) now =
     create_account db number holder initial_balance now"
| "execute db (Deposit number amt descr) now = deposit db number amt descr now"
| "execute db (Withdraw number amt descr) now = withdraw db number amt descr now"
| "execute db (Transfer from_acct to_acct amt descr) now =
     transfer db from_acct to_acct amt descr now"

fun run :: "bank \<Rightarrow> (operation \<times> nat) list \<Rightarrow> bank" where
  "run db [] = db"
| "run db ((op, now) # ops) = run (snd (execute db op now)) ops"




text \<open>
  Every account named by a row of the log is a row of the accounts table (the schema
  declares both columns as references to \<^verbatim>\<open>accounts(account_number)\<close>).
\<close>

definition null_or_known :: "account list \<Rightarrow> string option \<Rightarrow> bool" where
  "null_or_known rows x =
     (case x of None \<Rightarrow> True | Some a \<Rightarrow> a \<in> set (map account_number rows))"

definition log_refers_to_accounts :: "bank \<Rightarrow> bool" where
  "log_refers_to_accounts db =
     list_all (\<lambda>t. null_or_known (accounts db) (from_account t) \<and>
                   null_or_known (accounts db) (to_account t))
       (transactions db)"


section \<open>Sample stores\<close>

text \<open>The two accounts that the test suite of the repository creates before each test.\<close>

definition sample_bank :: bank where
  "sample_bank =
     \<lparr>accounts =
        [\<lparr>account_number = ''ACC001'', account_holder = ''John Doe'',
          balance = 1000, created_at = 0\<rparr>,
         \<lparr>account_number = ''ACC002'', account_holder = ''Jane Smith'',
          balance = 500, created_at = 0\<rparr>],
      transactions = []\<rparr>"


text \<open>
  The operations of \<^verbatim>\<open>test_get_transaction_history\<close> from the empty store: the two
  accounts are created, then a deposit, a withdrawal and a transfer on the first account,
  followed by a deposit into the second.
\<close>

definition sample_ledger_operations :: "(operation \<times> nat) list" where
  "sample_ledger_operations =
     [(CreateAccount ''ACC001'' ''John Doe'' 1000, 0),
      (CreateAccount ''ACC002'' ''Jane Smith'' 500, 0),
      (Deposit ''ACC001'' 200 (Some ''Test deposit''), 1),
      (Withdraw ''ACC001'' 100 (Some ''Test withdrawal''), 2),
      (Transfer ''ACC001'' ''ACC002'' 150 (Some ''Test transfer''), 3),
      (Deposit ''ACC002'' 50 (Some ''Deposit''), 4)]"

definition sample_ledger :: bank where
  "sample_ledger = run empty_bank sample_ledger_operations"

section \<open>Basic facts about the tables\<close>

lemma find_number_None:
  "find (\<lambda>r. account_number r = n) rows = None \<longleftrightarrow> n \<notin> set (map account_number rows)"
  by (induction rows) auto

lemma filter_number_absent:
  "n \<notin> set (map account_number rows) \<Longrightarrow> filter (\<lambda>r. account_number r = n) rows = []"
  by (induction rows) auto

lemma filter_number_distinct:
  "distinct (map account_number rows) \<Longrightarrow>
     length (filter (\<lambda>r. account_number r = n) rows) \<le> 1"
  by (induction rows) (auto simp: filter_number_absent)

lemma update_balance_numbers:
  "map account_number (update_balance n f rows) = map account_number rows"
  by (simp add: update_balance_def)




lemma length_filter_two:
  "distinct (map account_number rows) \<Longrightarrow>
     length (filter (\<lambda>r. account_number r = f \<or> account_number r = t) rows) =
       (if f \<in> set (map account_number rows) then 1 else 0) +
       (if t \<noteq> f \<and> t \<in> set (map account_number rows) then 1 else 0)"
  by (induction rows) auto

lemma map_of_selected:
  "distinct (map account_number rows) \<Longrightarrow>
     map_of (rev (map (\<lambda>acc. (account_number acc, balance acc))
        (filter (\<lambda>r. account_number r = f \<or> account_number r = t) rows))) f =
     map_option balance (find (\<lambda>r. account_number r = f) rows)"
proof (induction rows)
  case Nil
  then show ?case by simp
next
  case (Cons a rows)
  show ?case
  proof (cases "account_number a = f")
    case True
    with Cons.prems have "f \<notin> set (map account_number rows)" by auto
    then have "map_of (rev (map (\<lambda>acc. (account_number acc, balance acc))
        (filter (\<lambda>r. account_number r = f \<or> account_number r = t) rows))) f = None"
      by (auto simp: map_of_eq_None_iff image_iff)
    then show ?thesis using True by (simp add: map_add_def)
  next
    case False
    with Cons show ?thesis by (auto simp: map_add_def split: option.splits)
  qed
qed



lemma get_account_None:
  "get_account db n = None \<longleftrightarrow> n \<notin> set (map account_number (accounts db))"
  unfolding get_account_def by (rule find_number_None)


lemma deposit_missing:
  "get_account db n = None \<Longrightarrow> deposit db n amt d now = (False, db)"
  by (simp add: deposit_def get_account_def)

lemma deposit_found:
  "get_account db n = Some r \<Longrightarrow>
     deposit db n amt d now =
       (True, db\<lparr>accounts := update_balance n (\<lambda>_. balance r + amt) (accounts db),
                 transactions := transactions db @
                   [\<lparr>from_account = None, to_account = Some n, transaction_type = ''DEPOSIT'',
                     amount = amt, description = d, timestamp = now\<rparr>]\<rparr>)"
  by (simp add: deposit_def get_account_def)

lemma withdraw_missing:
  "get_account db n = None \<Longrightarrow> withdraw db n amt d now = (False, db)"
  by (simp add: withdraw_def get_account_def)

lemma withdraw_found:
  "get_account db n = Some r \<Longrightarrow>
     withdraw db n amt d now =
       (if balance r < amt then (False, db)
        else (True, db\<lparr>accounts := update_balance n (\<lambda>_. balance r - amt) (accounts db),
                 transactions := transactions db @
                   [\<lparr>from_account = Some n, to_account = None, transaction_type = ''WITHDRAWAL'',
                     amount = amt, description = d, timestamp = now\<rparr>]\<rparr>))"
  by (simp add: withdraw_def get_account_def)

lemma transfer_unique:
  assumes "unique_numbers db"
  shows "transfer db f t amt d now =
    (case get_account db f of
       None \<Rightarrow> (False, db)
     | Some rf \<Rightarrow>
         (case get_account db t of
            None \<Rightarrow> (False, db)
          | Some rt \<Rightarrow>
              if f = t \<or> balance rf < amt then (False, db)
              else (True,
                    db\<lparr>accounts := update_balance t (\<lambda>b. b + amt)
                                     (update_balance f (\<lambda>b. b - amt) (accounts db)),
                       transactions := transactions db @
                         [\<lparr>from_account = Some f, to_account = Some t,
                           transaction_type = ''TRANSFER'', amount = amt,
                           description = d, timestamp = now\<rparr>]\<rparr>)))"
proof -
  have d: "distinct (map account_number (accounts db))"
    using assms by (simp add: unique_numbers_def)
  note len = length_filter_two [OF d, of f t]
  note sel = map_of_selected [OF d, of f t]
  show ?thesis
  proof (cases "get_account db f")
    case None
    then have "f \<notin> set (map account_number (accounts db))" by (simp add: get_account_None)
    then have "length (filter (\<lambda>r. account_number r = f \<or> account_number r = t) (accounts db)) \<noteq> 2"
      using len by simp
    then show ?thesis using None by (simp add: transfer_def)
  next
    case (Some rf)
    then have inf: "f \<in> set (map account_number (accounts db))"
      using get_account_None [of db f] by simp
    show ?thesis
    proof (cases "get_account db t")
      case None
      then have "t \<notin> set (map account_number (accounts db))" by (simp add: get_account_None)
      then have "length (filter (\<lambda>r. account_number r = f \<or> account_number r = t) (accounts db)) \<noteq> 2"
        using len by simp
      then show ?thesis using None Some by (simp add: transfer_def)
    next
      case (Some rt)
      then have "t \<in> set (map account_number (accounts db))"
        using get_account_None [of db t] by simp
      then have "length (filter (\<lambda>r. account_number r = f \<or> account_number r = t) (accounts db)) = 2
          \<longleftrightarrow> f \<noteq> t"
        using len inf by auto
      moreover have "map_of (rev (map (\<lambda>acc. (account_number acc, balance acc))
          (filter (\<lambda>r. account_number r = f \<or> account_number r = t) (accounts db)))) f
          = Some (balance rf)"
        using sel \<open>get_account db f = Some rf\<close> by (simp add: get_account_def)
      ultimately show ?thesis using Some \<open>get_account db f = Some rf\<close>
        by (simp add: transfer_def)
    qed
  qed
qed

section \<open>Same-account transfer\<close>

text \<open>
  C8. In a store that respects the unique key, the engine itself rejects a transfer
  whose source and destination are the same account: \<^verbatim>\<open>BankSystem.transfer\<close>
  returns \<^verbatim>\<open>False\<close>, inserts no transaction row and leaves every balance as it was.
  (The selection on the key finds at most one row, never the two that the method asks
  for.)
\<close>

theorem transfer_same_account_rejected:
  "unique_numbers db \<Longrightarrow> transfer db a a amt descr now = (False, db)"
proof -
  assume "unique_numbers db"
  then have "length (filter (\<lambda>r. account_number r = a) (accounts db)) \<le> 1"
    unfolding unique_numbers_def by (rule filter_number_distinct)
  then show ?thesis
    by (simp add: transfer_def)
qed

theorem transfer_same_account_rejected_witness:
  "unique_numbers sample_bank \<and>
   transfer sample_bank ''ACC001'' ''ACC001'' 100 (Some ''Transfer'') 7 = (False, sample_bank)"
  using transfer_same_account_rejected [of sample_bank "''ACC001''" 100 "Some ''Transfer''" 7]
  by (simp add: unique_numbers_def sample_bank_def)

section \<open>Reading an account after an update\<close>




section \<open>Withdraw\<close>



section \<open>Deposit\<close>





section \<open>Transfer\<close>

lemma transfer_failed_unchanged:
  "fst (transfer db f t amt d now) = False \<Longrightarrow> snd (transfer db f t amt d now) = db"
  by (auto simp: transfer_def Let_def split: option.splits if_splits)

lemma transfer_succeeds:
  assumes "unique_numbers db" and "transfer db f t amt d now = (True, db')"
  shows "\<exists>rf rt. get_account db f = Some rf \<and> get_account db t = Some rt \<and> f \<noteq> t \<and>
           \<not> balance rf < amt \<and>
           db' = db\<lparr>accounts := update_balance t (\<lambda>b. b + amt)
                                     (update_balance f (\<lambda>b. b - amt) (accounts db)),
                       transactions := transactions db @
                         [\<lparr>from_account = Some f, to_account = Some t,
                           transaction_type = ''TRANSFER'', amount = amt,
                           description = d, timestamp = now\<rparr>]\<rparr>"
  using assms(2) unfolding transfer_unique [OF assms(1)]
  by (auto split: option.splits if_splits)





section \<open>Facts preserved along a sequence of operations\<close>

lemma create_account_unique:
  "unique_numbers db \<Longrightarrow> unique_numbers (snd (create_account db n h b now))"
  by (simp add: create_account_def unique_numbers_def)

lemma deposit_numbers:
  "map account_number (accounts (snd (deposit db n amt d now))) = map account_number (accounts db)"
  by (simp add: deposit_def update_balance_numbers split: option.splits)

lemma withdraw_numbers:
  "map account_number (accounts (snd (withdraw db n amt d now))) = map account_number (accounts db)"
  by (simp add: withdraw_def Let_def update_balance_numbers split: option.splits)

lemma transfer_numbers:
  "map account_number (accounts (snd (transfer db f t amt d now))) = map account_number (accounts db)"
  by (simp add: transfer_def Let_def update_balance_numbers split: option.splits)

lemma execute_unique:
  "unique_numbers db \<Longrightarrow> unique_numbers (snd (execute db op now))"
proof (cases op)
  case (CreateAccount n h b)
  then show "unique_numbers db \<Longrightarrow> ?thesis" by (simp add: create_account_unique)
next
  case (Deposit n amt d)
  then show "unique_numbers db \<Longrightarrow> ?thesis" by (simp add: unique_numbers_def deposit_numbers)
next
  case (Withdraw n amt d)
  then show "unique_numbers db \<Longrightarrow> ?thesis" by (simp add: unique_numbers_def withdraw_numbers)
next
  case (Transfer f t amt d)
  then show "unique_numbers db \<Longrightarrow> ?thesis" by (simp add: unique_numbers_def transfer_numbers)
qed

lemma run_unique: "unique_numbers db \<Longrightarrow> unique_numbers (run db ops)"
proof (induction ops arbitrary: db)
  case Nil
  then show ?case by simp
next
  case (Cons x ops)
  obtain op now where x: "x = (op, now)" by (cases x)
  from Cons.prems have "unique_numbers (snd (execute db op now))" by (rule execute_unique)
  then show ?case using Cons.IH x by simp
qed




section \<open>Conservation of money\<close>



section \<open>No overdraft\<close>

















section \<open>Transaction history\<close>

lemma order_by_timestamp_desc_mset: "mset (order_by_timestamp_desc rows) = mset rows"
  by (simp add: order_by_timestamp_desc_def)

lemma order_by_timestamp_desc_sorted:
  "sorted_wrt (\<lambda>x y. timestamp y \<le> timestamp x) (order_by_timestamp_desc rows)"
proof -
  have "sorted (map (\<lambda>t. - int (timestamp t)) (order_by_timestamp_desc rows))"
    unfolding order_by_timestamp_desc_def by (rule sorted_sort_key)
  then show ?thesis by (simp add: sorted_map)
qed

lemma order_by_timestamp_desc_length: "length (order_by_timestamp_desc rows) = length rows"
  by (simp add: order_by_timestamp_desc_def)

lemma history_in_range:
  assumes "0 \<le> limit" and "limit < 2 ^ 63"
  shows "\<exists>res rest. get_transaction_history db n limit = Inr res \<and>
           mset (res @ rest) = mset (filter (involves n) (transactions db)) \<and>
           sorted_wrt (\<lambda>x y. timestamp y \<le> timestamp x) (res @ rest) \<and>
           int (length res) = min limit (int (length (filter (involves n) (transactions db))))"
proof -
  let ?m = "filter (involves n) (transactions db)"
  let ?s = "order_by_timestamp_desc ?m"
  have "get_transaction_history db n limit = Inr (take (nat limit) ?s)"
    using assms by (simp add: get_transaction_history_def fits_int64_def sql_limit_def)
  moreover have "mset (take (nat limit) ?s @ drop (nat limit) ?s) = mset ?m"
    by (simp add: order_by_timestamp_desc_mset)
  moreover have "sorted_wrt (\<lambda>x y. timestamp y \<le> timestamp x)
      (take (nat limit) ?s @ drop (nat limit) ?s)"
    by (simp add: order_by_timestamp_desc_sorted)
  moreover have "int (length (take (nat limit) ?s)) = min limit (int (length ?m))"
    using assms(1) by (simp add: order_by_timestamp_desc_length)
  ultimately show ?thesis by blast
qed

lemma history_negative_limit:
  assumes "- (2 ^ 63) \<le> limit" and "limit < 0"
  shows "\<exists>res. get_transaction_history db n limit = Inr res \<and>
           mset res = mset (filter (involves n) (transactions db)) \<and>
           sorted_wrt (\<lambda>x y. timestamp y \<le> timestamp x) res"
  using assms
  by (simp add: get_transaction_history_def fits_int64_def sql_limit_def
      order_by_timestamp_desc_mset order_by_timestamp_desc_sorted)

lemma history_no_match:
  "fits_int64 limit \<Longrightarrow> filter (involves n) (transactions db) = [] \<Longrightarrow>
     get_transaction_history db n limit = Inr []"
  by (simp add: get_transaction_history_def sql_limit_def order_by_timestamp_desc_def)

lemma unknown_account_no_match:
  assumes "log_refers_to_accounts db" and "get_account db n = None"
  shows "filter (involves n) (transactions db) = []"
proof -
  have "n \<notin> set (map account_number (accounts db))"
    using assms(2) by (simp add: get_account_None)
  then have "\<forall>t \<in> set (transactions db). \<not> involves n t"
    using assms(1)
    by (auto simp: log_refers_to_accounts_def list_all_iff involves_def null_or_known_def)
  then show ?thesis by (simp add: filter_empty_conv)
qed

lemma null_or_known_mono:
  "set (map account_number rows) \<subseteq> set (map account_number rows') \<Longrightarrow>
     null_or_known rows x \<Longrightarrow> null_or_known rows' x"
  by (cases x) (auto simp: null_or_known_def)

lemma log_refers_append:
  assumes "log_refers_to_accounts db"
    and "set (map account_number (accounts db)) \<subseteq> set (map account_number rows)"
    and "null_or_known rows (from_account t)" and "null_or_known rows (to_account t)"
  shows "log_refers_to_accounts (db\<lparr>accounts := rows, transactions := transactions db @ [t]\<rparr>)"
  using assms null_or_known_mono [OF assms(2)]
  unfolding log_refers_to_accounts_def list_all_iff by auto

lemma create_account_log_refers:
  assumes "log_refers_to_accounts db"
  shows "log_refers_to_accounts (snd (create_account db n h b now))"
proof -
  have "set (map account_number (accounts db)) \<subseteq>
      set (map account_number (accounts (snd (create_account db n h b now))))"
    by (auto simp: create_account_def)
  from null_or_known_mono [OF this] assms show ?thesis
    unfolding log_refers_to_accounts_def list_all_iff
    by (auto simp: create_account_def)
qed

lemma deposit_log_refers:
  assumes "log_refers_to_accounts db"
  shows "log_refers_to_accounts (snd (deposit db n amt d now))"
proof (cases "get_account db n")
  case None
  then show ?thesis using assms by (simp add: deposit_missing)
next
  case (Some r)
  then have "n \<in> set (map account_number (accounts db))"
    using get_account_None [of db n] by simp
  then show ?thesis
    using Some assms
    by (simp add: deposit_found log_refers_append update_balance_numbers null_or_known_def)
qed

lemma withdraw_log_refers:
  assumes "log_refers_to_accounts db"
  shows "log_refers_to_accounts (snd (withdraw db n amt d now))"
proof (cases "get_account db n")
  case None
  then show ?thesis using assms by (simp add: withdraw_missing)
next
  case (Some r)
  then have "n \<in> set (map account_number (accounts db))"
    using get_account_None [of db n] by simp
  then show ?thesis
    using Some assms
    by (simp add: withdraw_found log_refers_append update_balance_numbers null_or_known_def)
qed

lemma transfer_log_refers:
  assumes "unique_numbers db" and "log_refers_to_accounts db"
  shows "log_refers_to_accounts (snd (transfer db f t amt d now))"
proof (cases "fst (transfer db f t amt d now)")
  case False
  then show ?thesis using assms(2) by (simp add: transfer_failed_unchanged)
next
  case True
  then have "transfer db f t amt d now = (True, snd (transfer db f t amt d now))"
    by (simp add: prod_eq_iff)
  from transfer_succeeds [OF assms(1) this] obtain rf rt where
    rf: "get_account db f = Some rf" and rt: "get_account db t = Some rt" and
    db': "snd (transfer db f t amt d now) =
            db\<lparr>accounts := update_balance t (\<lambda>b. b + amt)
                                     (update_balance f (\<lambda>b. b - amt) (accounts db)),
                       transactions := transactions db @
                         [\<lparr>from_account = Some f, to_account = Some t,
                           transaction_type = ''TRANSFER'', amount = amt,
                           description = d, timestamp = now\<rparr>]\<rparr>"
    by blast
  have "f \<in> set (map account_number (accounts db))" and "t \<in> set (map account_number (accounts db))"
    using rf rt get_account_None [of db f] get_account_None [of db t] by simp_all
  then show ?thesis
    using assms(2)
    by (simp add: db' log_refers_append update_balance_numbers null_or_known_def)
qed

lemma execute_log_refers:
  assumes "unique_numbers db" and "log_refers_to_accounts db"
  shows "log_refers_to_accounts (snd (execute db op now))"
proof (cases op)
  case (CreateAccount n h b)
  then show ?thesis using assms by (simp add: create_account_log_refers)
next
  case (Deposit n amt d)
  then show ?thesis using assms by (simp add: deposit_log_refers)
next
  case (Withdraw n amt d)
  then show ?thesis using assms by (simp add: withdraw_log_refers)
next
  case (Transfer f t amt d)
  then show ?thesis using assms by (simp add: transfer_log_refers)
qed

lemma run_log_refers:
  "unique_numbers db \<Longrightarrow> log_refers_to_accounts db \<Longrightarrow> log_refers_to_accounts (run db ops)"
proof (induction ops arbitrary: db)
  case Nil
  then show ?case by simp
next
  case (Cons x ops)
  obtain op now where x: "x = (op, now)" by (cases x)
  have "unique_numbers (snd (execute db op now))"
    using Cons.prems(1) by (rule execute_unique)
  moreover have "log_refers_to_accounts (snd (execute db op now))"
    using Cons.prems by (rule execute_log_refers)
  ultimately show ?case using Cons.IH x by simp
qed

lemma reachable_store:
  "unique_numbers (run empty_bank ops) \<and> log_refers_to_accounts (run empty_bank ops)"
proof -
  have "unique_numbers empty_bank" and "log_refers_to_accounts empty_bank"
    by (simp_all add: unique_numbers_def log_refers_to_accounts_def empty_bank_def)
  then show ?thesis by (simp add: run_unique run_log_refers)
qed

lemma sample_ledger_eq:
  "sample_ledger =
     \<lparr>accounts =
        [\<lparr>account_number = ''ACC001'', account_holder = ''John Doe'', balance = 950, created_at = 0\<rparr>,
         \<lparr>account_number = ''ACC002'', account_holder = ''Jane Smith'', balance = 700, created_at = 0\<rparr>],
      transactions =
        [\<lparr>from_account = None, to_account = Some ''ACC001'', transaction_type = ''DEPOSIT'',
          amount = 200, description = Some ''Test deposit'', timestamp = 1\<rparr>,
         \<lparr>from_account = Some ''ACC001'', to_account = None, transaction_type = ''WITHDRAWAL'',
          amount = 100, description = Some ''Test withdrawal'', timestamp = 2\<rparr>,
         \<lparr>from_account = Some ''ACC001'', to_account = Some ''ACC002'',
          transaction_type = ''TRANSFER'', amount = 150,
          description = Some ''Test transfer'', timestamp = 3\<rparr>,
         \<lparr>from_account = None, to_account = Some ''ACC002'', transaction_type = ''DEPOSIT'',
          amount = 50, description = Some ''Deposit'', timestamp = 4\<rparr>]\<rparr>"
  by (simp add: sample_ledger_def sample_ledger_operations_def empty_bank_def
      create_account_def deposit_def withdraw_def transfer_def update_balance_def)

text \<open>
  C7, as the code has it. For every account identity and every limit from 0 up to the
  largest signed 64-bit integer, \<^verbatim>\<open>BankSystem.get_transaction_history\<close> returns the
  first \<open>min(limit, total)\<close> entries of the rows in which the account is \<open>from_account\<close>
  or \<open>to_account\<close>, taken in descending order of timestamp: the result \<open>res\<close> followed
  by the rows \<open>rest\<close> that were cut off is a rearrangement of exactly the matching
  rows, sorted by timestamp descending. A negative limit that fits 64 bits does not
  truncate: all matching rows are returned, sorted. A limit that does not fit a signed
  64-bit integer raises \<^verbatim>\<open>OverflowError\<close>. When no row matches the result is the
  empty list, not an error; in every store reached from the empty one by engine
  operations this is the case for an identity that is not an account, since the log only
  names accounts of the accounts table.
\<close>

theorem history_sorted_and_limited:
  "(0 \<le> limit \<and> limit < 2 ^ 63 \<longrightarrow>
      (\<exists>res rest. get_transaction_history db n limit = Inr res \<and>
         mset (res @ rest) = mset (filter (involves n) (transactions db)) \<and>
         sorted_wrt (\<lambda>x y. timestamp y \<le> timestamp x) (res @ rest) \<and>
         int (length res) = min limit (int (length (filter (involves n) (transactions db)))))) \<and>
   (- (2 ^ 63) \<le> limit \<and> limit < 0 \<longrightarrow>
      (\<exists>res. get_transaction_history db n limit = Inr res \<and>
         mset res = mset (filter (involves n) (transactions db)) \<and>
         sorted_wrt (\<lambda>x y. timestamp y \<le> timestamp x) res)) \<and>
   (limit < - (2 ^ 63) \<or> 2 ^ 63 \<le> limit \<longrightarrow>
      get_transaction_history db n limit = Inl OverflowError) \<and>
   (fits_int64 limit \<and> filter (involves n) (transactions db) = [] \<longrightarrow>
      get_transaction_history db n limit = Inr []) \<and>
   (fits_int64 limit \<and> get_account (run empty_bank ops) n = None \<longrightarrow>
      get_transaction_history (run empty_bank ops) n limit = Inr [])"
proof (intro conjI impI)
  assume "0 \<le> limit \<and> limit < 2 ^ 63"
  then show "\<exists>res rest. get_transaction_history db n limit = Inr res \<and>
         mset (res @ rest) = mset (filter (involves n) (transactions db)) \<and>
         sorted_wrt (\<lambda>x y. timestamp y \<le> timestamp x) (res @ rest) \<and>
         int (length res) = min limit (int (length (filter (involves n) (transactions db))))"
    using history_in_range [of limit db n] by blast
next
  assume "- (2 ^ 63) \<le> limit \<and> limit < 0"
  then show "\<exists>res. get_transaction_history db n limit = Inr res \<and>
         mset res = mset (filter (involves n) (transactions db)) \<and>
         sorted_wrt (\<lambda>x y. timestamp y \<le> timestamp x) res"
    using history_negative_limit [of limit db n] by blast
next
  assume "limit < - (2 ^ 63) \<or> 2 ^ 63 \<le> limit"
  then show "get_transaction_history db n limit = Inl OverflowError"
    by (auto simp: get_transaction_history_def fits_int64_def)
next
  assume "fits_int64 limit \<and> filter (involves n) (transactions db) = []"
  then show "get_transaction_history db n limit = Inr []"
    by (simp add: history_no_match)
next
  assume "fits_int64 limit \<and> get_account (run empty_bank ops) n = None"
  then show "get_transaction_history (run empty_bank ops) n limit = Inr []"
    using reachable_store [of ops] by (simp add: history_no_match unknown_account_no_match)
qed

theorem history_sorted_and_limited_witness:
  "get_transaction_history sample_ledger ''ACC001'' 2 =
     Inr [\<lparr>from_account = Some ''ACC001'', to_account = Some ''ACC002'',
           transaction_type = ''TRANSFER'', amount = 150,
           description = Some ''Test transfer'', timestamp = 3\<rparr>,
          \<lparr>from_account = Some ''ACC001'', to_account = None, transaction_type = ''WITHDRAWAL'',
           amount = 100, description = Some ''Test withdrawal'', timestamp = 2\<rparr>] \<and>
   length (filter (involves ''ACC001'') (transactions sample_ledger)) = 3 \<and>
   get_transaction_history sample_ledger ''ACC001'' 10 =
     Inr [\<lparr>from_account = Some ''ACC001'', to_account = Some ''ACC002'',
           transaction_type = ''TRANSFER'', amount = 150,
           description = Some ''Test transfer'', timestamp = 3\<rparr>,
          \<lparr>from_account = Some ''ACC001'', to_account = None, transaction_type = ''WITHDRAWAL'',
           amount = 100, description = Some ''Test withdrawal'', timestamp = 2\<rparr>,
          \<lparr>from_account = None, to_account = Some ''ACC001'', transaction_type = ''DEPOSIT'',
           amount = 200, description = Some ''Test deposit'', timestamp = 1\<rparr>] \<and>
   fits_int64 10 \<and>
   get_account (run empty_bank sample_ledger_operations) ''NONEXISTENT'' = None \<and>
   get_transaction_history (run empty_bank sample_ledger_operations) ''NONEXISTENT'' 10 = Inr [] \<and>
   get_transaction_history sample_ledger ''ACC001'' (2 ^ 63) = Inl OverflowError \<and>
   get_transaction_history sample_ledger ''ACC002'' (- 5) =
     Inr [\<lparr>from_account = None, to_account = Some ''ACC002'', transaction_type = ''DEPOSIT'',
           amount = 50, description = Some ''Deposit'', timestamp = 4\<rparr>,
          \<lparr>from_account = Some ''ACC001'', to_account = Some ''ACC002'',
           transaction_type = ''TRANSFER'', amount = 150,
           description = Some ''Test transfer'', timestamp = 3\<rparr>]"
  using history_sorted_and_limited [of 2 sample_ledger "''ACC001''"]
    history_sorted_and_limited [of "- 5" sample_ledger "''ACC002''"]
    history_sorted_and_limited [of 10 sample_ledger "''NONEXISTENT''" sample_ledger_operations]
    history_sorted_and_limited [of "2 ^ 63" sample_ledger "''ACC001''"]
  by (simp add: sample_ledger_eq sample_ledger_def [symmetric] get_transaction_history_def
      fits_int64_def sql_limit_def order_by_timestamp_desc_def involves_def get_account_def)

text \<open>
  The claim as stated fails for a negative limit: with limit \<open>-1\<close> the query returns all
  three rows of the first account, while \<open>min(limit, total)\<close> is \<open>-1\<close>. It also fails
  for the limit \<open>2^63\<close>, where the call raises instead of returning the three rows.
\<close>

theorem history_limit_counterexample:
  "get_transaction_history sample_ledger ''ACC001'' (- 1) =
     Inr [\<lparr>from_account = Some ''ACC001'', to_account = Some ''ACC002'',
           transaction_type = ''TRANSFER'', amount = 150,
           description = Some ''Test transfer'', timestamp = 3\<rparr>,
          \<lparr>from_account = Some ''ACC001'', to_account = None, transaction_type = ''WITHDRAWAL'',
           amount = 100, description = Some ''Test withdrawal'', timestamp = 2\<rparr>,
          \<lparr>from_account = None, to_account = Some ''ACC001'', transaction_type = ''DEPOSIT'',
           amount = 200, description = Some ''Test deposit'', timestamp = 1\<rparr>] \<and>
   int (length (projr (get_transaction_history sample_ledger ''ACC001'' (- 1)))) \<noteq>
     min (- 1) (int (length (filter (involves ''ACC001'') (transactions sample_ledger)))) \<and>
   get_transaction_history sample_ledger ''ACC001'' (2 ^ 63) = Inl OverflowError"
  by (simp add: sample_ledger_eq get_transaction_history_def fits_int64_def sql_limit_def
      order_by_timestamp_desc_def involves_def)

section \<open>How failures are reported\<close>














end
